theory Spec2Isabelle
  imports Complex_Main
begin

section \<open>Numbers\<close>

text \<open>
  A value of the TypeScript type \<open>number\<close> as \<open>clampInt\<close> can receive it: not-a-number,
  one of the two infinities, or a finite value. A finite double denotes a rational
  number; \<open>Math.trunc\<close>, \<open>Math.min\<close> and \<open>Math.max\<close> are exact on it, so the finite
  case is modelled by that rational. Negative zero is identified with zero (no result
  of \<open>clampInt\<close> with the bounds used in this program distinguishes them).
\<close>

datatype jsnum = NaN | PosInfinity | NegInfinity | Finite rat

text \<open>\<open>Number.isFinite\<close>.\<close>

primrec isFinite :: "jsnum \<Rightarrow> bool" where
  "isFinite NaN = False"
| "isFinite PosInfinity = False"
| "isFinite NegInfinity = False"
| "isFinite (Finite r) = True"

text \<open>\<open>Math.trunc\<close> on a finite value: rounding towards zero.\<close>

definition trunc :: "rat \<Rightarrow> int" where
  "trunc r = (if 0 \<le> r then \<lfloor>r\<rfloor> else \<lceil>r\<rceil>)"

text \<open>
  \<open>clampInt(n, min, max)\<close>, lines 16-19 of \<open>src/app/pomodoro/page.tsx\<close>. Every call
  passes integer literals as bounds, so the bounds are integers here, and the result,
  which is either \<open>min\<close> or a truncated value between the bounds, is an integer. The
  last branch of the case is never reached: a number that is finite is \<open>Finite r\<close>.
\<close>

definition clampInt :: "jsnum \<Rightarrow> int \<Rightarrow> int \<Rightarrow> int" where
  "clampInt n lo hi =
     (if \<not> isFinite n then lo
      else (case n of
              Finite r \<Rightarrow> max lo (min hi (trunc r))
            | _ \<Rightarrow> lo))"

text \<open>
  The remainder operator \<open>%\<close> on integers: the sign follows the dividend, and a zero
  divisor gives not-a-number (\<open>None\<close>), which is not \<open>=== 0\<close>.
\<close>

definition js_rem :: "int \<Rightarrow> int \<Rightarrow> int option" where
  "js_rem a b = (if b = 0 then None else Some (sgn a * (\<bar>a\<bar> mod \<bar>b\<bar>)))"

section \<open>Preferences, presets and the timer state\<close>

datatype Phase = work | break | longBreak

text \<open>
  The preferences object of \<open>PomodoroPage\<close> (lines 72-79). The scheduler computes with
  integers far below \<open>2^53\<close>, where arithmetic on doubles is integer arithmetic, so the
  numeric fields are integers. Nothing bounds them in the type: what is read back from
  storage is not validated.
\<close>

record prefs =
  workMin :: int
  breakMin :: int
  longBreakMin :: int
  longEvery :: int
  autoStartNext :: bool
  soundOn :: bool

definition initial_prefs :: prefs where
  "initial_prefs =
     \<lparr>workMin = 25, breakMin = 5, longBreakMin = 15, longEvery = 4,
      autoStartNext = False, soundOn = True\<rparr>"

text \<open>The type \<open>Preset\<close> (line 6) and the catalogue \<open>PRESETS\<close> (lines 8-12).\<close>

record preset =
  label :: string
  presetWorkMin :: jsnum
  presetBreakMin :: jsnum
  presetLongBreakMin :: jsnum
  presetLongEvery :: jsnum

definition PRESETS :: "preset list" where
  "PRESETS =
     [\<lparr>label = ''Ignite 2/1'', presetWorkMin = Finite 2, presetBreakMin = Finite 1,
       presetLongBreakMin = Finite 3, presetLongEvery = Finite 4\<rparr>,
      \<lparr>label = ''Classic 25/5'', presetWorkMin = Finite 25, presetBreakMin = Finite 5,
       presetLongBreakMin = Finite 15, presetLongEvery = Finite 4\<rparr>,
      \<lparr>label = ''Deep 50/10'', presetWorkMin = Finite 50, presetBreakMin = Finite 10,
       presetLongBreakMin = Finite 20, presetLongEvery = Finite 2\<rparr>]"

text \<open>
  The interval callback is created by the effect of lines 124-142, whose dependency
  list is \<open>[isRunning]\<close> alone (the lint rule that asks for the others is switched off
  on line 141). The callback therefore keeps the \<open>finishPhase\<close> of the render in which
  the timer was started, and with it that render's \<open>prefs\<close>, \<open>phase\<close> and
  \<open>workSessionsDone\<close>. A \<open>closure\<close> holds these three values.
\<close>

record closure =
  closurePrefs :: prefs
  closurePhase :: Phase
  closureSessionsDone :: int

text \<open>
  The state of the component: \<open>prefs\<close>, the four \<open>useState\<close> cells, and
  \<open>intervalRef.current\<close> (\<open>None\<close> for \<open>null\<close>, otherwise the live interval with what
  its callback closes over). \<open>autoStarts\<close> counts the pending
  \<open>setTimeout(() => setIsRunning(true), 50)\<close> of line 121. \<open>beeps\<close> and
  \<open>finishCalls\<close> log the calls of \<open>playBeep\<close> and of \<open>finishPhase\<close>.
\<close>

record timer =
  prefs :: prefs
  phase :: Phase
  isRunning :: bool
  workSessionsDone :: int
  secondsLeft :: int
  interval :: "closure option"
  autoStarts :: nat
  beeps :: nat
  finishCalls :: nat

text \<open>\<open>phaseTotalSeconds\<close> (lines 85-89), as a function of what it is memoised on.\<close>

definition phaseTotalSeconds :: "prefs \<Rightarrow> Phase \<Rightarrow> int" where
  "phaseTotalSeconds p ph =
     (if ph = work then workMin p * 60
      else if ph = break then breakMin p * 60
      else longBreakMin p * 60)"

text \<open>
  The state after mount for given preferences: \<open>useState\<close> initial values of lines
  81-83 and 91.
\<close>

definition mount :: "prefs \<Rightarrow> timer" where
  "mount p =
     \<lparr>prefs = p, phase = work, isRunning = False, workSessionsDone = 0,
      secondsLeft = phaseTotalSeconds p work, interval = None,
      autoStarts = 0, beeps = 0, finishCalls = 0\<rparr>"

section \<open>Handlers\<close>

text \<open>
  \<open>useLong\<close> of line 108. The conjunction \<open>&&\<close> evaluates its right operand only when
  the left one holds, which the conditional writes out: the remainder is computed in
  the first branch only.
\<close>

definition useLong :: "prefs \<Rightarrow> int \<Rightarrow> bool" where
  "useLong p nextCount =
     (if longEvery p > 0 then js_rem nextCount (longEvery p) = Some 0 else False)"

text \<open>
  \<open>nextPhase(from)\<close> (lines 105-114). The function closes over \<open>prefs\<close> and
  \<open>workSessionsDone\<close> of the render that created it; they are the first two arguments.
\<close>

definition nextPhase :: "prefs \<Rightarrow> int \<Rightarrow> Phase \<Rightarrow> timer \<Rightarrow> timer" where
  "nextPhase p sessionsDone fromPhase st =
     (if fromPhase = work then
        (let nextCount = sessionsDone + 1
         in st\<lparr>workSessionsDone := nextCount,
               phase := (if useLong p nextCount then longBreak else break)\<rparr>)
      else st\<lparr>phase := work\<rparr>)"

text \<open>\<open>finishPhase\<close> (lines 116-122), run with the values its closure holds.\<close>

definition finishPhase :: "closure \<Rightarrow> timer \<Rightarrow> timer" where
  "finishPhase c st =
     (let st1 = (if soundOn (closurePrefs c) then st\<lparr>beeps := beeps st + 1\<rparr> else st);
          st2 = st1\<lparr>isRunning := False, interval := None\<rparr>;
          st3 = nextPhase (closurePrefs c) (closureSessionsDone c) (closurePhase c) st2;
          st4 = (if autoStartNext (closurePrefs c)
                 then st3\<lparr>autoStarts := autoStarts st3 + 1\<rparr> else st3)
      in st4\<lparr>finishCalls := finishCalls st4 + 1\<rparr>)"

text \<open>
  The click handlers (lines 146-184) are created anew by every render, so they read
  the current state.
\<close>

definition resetAll :: "timer \<Rightarrow> timer" where
  "resetAll st =
     st\<lparr>isRunning := False, interval := None, phase := work, workSessionsDone := 0,
        secondsLeft := workMin (prefs st) * 60\<rparr>"

definition resetPhase :: "timer \<Rightarrow> timer" where
  "resetPhase st =
     st\<lparr>isRunning := False, interval := None,
        secondsLeft := phaseTotalSeconds (prefs st) (phase st)\<rparr>"

definition skip :: "timer \<Rightarrow> timer" where
  "skip st =
     (let st1 = st\<lparr>isRunning := False, interval := None\<rparr>;
          st2 = (if soundOn (prefs st) then st1\<lparr>beeps := beeps st1 + 1\<rparr> else st1)
      in nextPhase (prefs st) (workSessionsDone st) (phase st) st2)"

definition applyPreset :: "preset \<Rightarrow> timer \<Rightarrow> timer" where
  "applyPreset ps st =
     (let newPrefs = (prefs st)\<lparr>workMin := clampInt (presetWorkMin ps) 1 180,
                                breakMin := clampInt (presetBreakMin ps) 1 120,
                                longBreakMin := clampInt (presetLongBreakMin ps) 1 180,
                                longEvery := clampInt (presetLongEvery ps) 0 20\<rparr>;
          nextSeconds = (if phase st = work then workMin newPrefs * 60
                         else if phase st = break then breakMin newPrefs * 60
                         else longBreakMin newPrefs * 60)
      in st\<lparr>isRunning := False, interval := None, prefs := newPrefs,
            secondsLeft := nextSeconds\<rparr>)"

text \<open>
  The Start/Pause button (line 214) and the preference controls (lines 198-203 and
  244-277). A numeric control passes \<open>Number(e.target.value)\<close> to \<open>clampInt\<close>; the
  argument \<open>n\<close> is that number.
\<close>

definition toggleRunning :: "timer \<Rightarrow> timer" where
  "toggleRunning st = st\<lparr>isRunning := \<not> isRunning st\<rparr>"

definition setWorkMin :: "jsnum \<Rightarrow> timer \<Rightarrow> timer" where
  "setWorkMin n st = st\<lparr>prefs := (prefs st)\<lparr>workMin := clampInt n 1 180\<rparr>\<rparr>"

definition setBreakMin :: "jsnum \<Rightarrow> timer \<Rightarrow> timer" where
  "setBreakMin n st = st\<lparr>prefs := (prefs st)\<lparr>breakMin := clampInt n 1 120\<rparr>\<rparr>"

definition setLongBreakMin :: "jsnum \<Rightarrow> timer \<Rightarrow> timer" where
  "setLongBreakMin n st = st\<lparr>prefs := (prefs st)\<lparr>longBreakMin := clampInt n 1 180\<rparr>\<rparr>"

definition setLongEvery :: "jsnum \<Rightarrow> timer \<Rightarrow> timer" where
  "setLongEvery n st = st\<lparr>prefs := (prefs st)\<lparr>longEvery := clampInt n 0 20\<rparr>\<rparr>"

definition toggleSound :: "timer \<Rightarrow> timer" where
  "toggleSound st = st\<lparr>prefs := (prefs st)\<lparr>soundOn := \<not> soundOn (prefs st)\<rparr>\<rparr>"

definition toggleAuto :: "timer \<Rightarrow> timer" where
  "toggleAuto st = st\<lparr>prefs := (prefs st)\<lparr>autoStartNext := \<not> autoStartNext (prefs st)\<rparr>\<rparr>"

section \<open>Effects and events\<close>

text \<open>
  After the render that follows a batch of state updates, React runs the effects whose
  dependencies changed between the previous render (\<open>old\<close>) and this one (\<open>new\<close>):
  \<^item> lines 93-95, dependencies \<open>[phaseTotalSeconds, isRunning]\<close>: when not running, set
    \<open>secondsLeft\<close> to \<open>phaseTotalSeconds\<close>;
  \<^item> lines 124-142, dependencies \<open>[isRunning]\<close>: clear the interval, and when running
    create a new one, whose callback closes over this render.
  The write of the first effect causes one more render, in which no dependency has
  changed.
\<close>

definition syncSecondsLeft :: "timer \<Rightarrow> timer \<Rightarrow> timer" where
  "syncSecondsLeft old new =
     (if phaseTotalSeconds (prefs new) (phase new) = phaseTotalSeconds (prefs old) (phase old)
         \<and> isRunning new = isRunning old
      then new
      else if isRunning new then new
      else new\<lparr>secondsLeft := phaseTotalSeconds (prefs new) (phase new)\<rparr>)"

definition syncInterval :: "timer \<Rightarrow> timer \<Rightarrow> timer \<Rightarrow> timer" where
  "syncInterval old new st =
     (if isRunning new = isRunning old then st
      else if isRunning new
      then st\<lparr>interval := Some \<lparr>closurePrefs = prefs new, closurePhase = phase new,
                                 closureSessionsDone = workSessionsDone new\<rparr>\<rparr>
      else st\<lparr>interval := None\<rparr>)"

definition effects :: "timer \<Rightarrow> timer \<Rightarrow> timer" where
  "effects old new = syncInterval old new (syncSecondsLeft old new)"

text \<open>
  The updater passed to \<open>setSecondsLeft\<close> by the interval callback (lines 131-137):
  the new value, and whether \<open>setTimeout(() => finishPhase(), 0)\<close> was called.
\<close>

definition tickUpdater :: "int \<Rightarrow> int \<times> bool" where
  "tickUpdater s = (if s \<le> 1 then (0, True) else (s - 1, False))"

text \<open>
  One firing of the interval. Without a live interval nothing fires. When the updater
  has scheduled \<open>finishPhase\<close>, the zero-delay timeout runs it before the next event,
  with the closure of the interval, on the state in which \<open>secondsLeft\<close> is already 0.
\<close>

definition tick :: "timer \<Rightarrow> timer" where
  "tick st =
     (case interval st of
        None \<Rightarrow> st
      | Some c \<Rightarrow>
          (let st1 = st\<lparr>secondsLeft := fst (tickUpdater (secondsLeft st))\<rparr>
           in if snd (tickUpdater (secondsLeft st))
              then effects st1 (finishPhase c st1)
              else st1))"

text \<open>The pending auto-start timeout of line 121 fires.\<close>

definition autoStart :: "timer \<Rightarrow> timer" where
  "autoStart st =
     (if autoStarts st = 0 then st
      else effects st (st\<lparr>isRunning := True, autoStarts := autoStarts st - 1\<rparr>))"

datatype event =
    Toggle | ResetPhase | Skip | ResetAll | ApplyPreset preset
  | SetWorkMin jsnum | SetBreakMin jsnum | SetLongBreakMin jsnum | SetLongEvery jsnum
  | ToggleSound | ToggleAuto
  | Tick | AutoStart

text \<open>An event: the handler, then the effects of the render it causes.\<close>

primrec step :: "event \<Rightarrow> timer \<Rightarrow> timer" where
  "step Toggle st = effects st (toggleRunning st)"
| "step ResetPhase st = effects st (resetPhase st)"
| "step Skip st = effects st (skip st)"
| "step ResetAll st = effects st (resetAll st)"
| "step (ApplyPreset ps) st = effects st (applyPreset ps st)"
| "step (SetWorkMin n) st = effects st (setWorkMin n st)"
| "step (SetBreakMin n) st = effects st (setBreakMin n st)"
| "step (SetLongBreakMin n) st = effects st (setLongBreakMin n st)"
| "step (SetLongEvery n) st = effects st (setLongEvery n st)"
| "step ToggleSound st = effects st (toggleSound st)"
| "step ToggleAuto st = effects st (toggleAuto st)"
| "step Tick st = tick st"
| "step AutoStart st = autoStart st"

primrec run :: "event list \<Rightarrow> timer \<Rightarrow> timer" where
  "run [] st = st"
| "run (e # es) st = run es (step e st)"

text \<open>\<open>n\<close> firings of the interval in a row.\<close>

primrec ticks :: "nat \<Rightarrow> timer \<Rightarrow> timer" where
  "ticks 0 st = st"
| "ticks (Suc n) st = ticks n (tick st)"

section \<open>Loading the preferences\<close>

text \<open>
  A value as \<open>JSON.parse\<close> returns it. An object is the list of its properties, each
  key once.
\<close>

datatype json =
    JNull | JBool bool | JNumber rat | JString string
  | JArray "json list" | JObject "(string \<times> json) list"

text \<open>
  What \<open>localStorage.getItem(key)\<close> does: it throws (storage is not available), it
  returns \<open>null\<close>, or it returns the stored string.
\<close>

datatype storage_read = Throws | Null | Raw string

text \<open>
  The initialiser of \<open>useLocalStorageState\<close> (lines 52-60). \<open>parsed\<close> is the outcome
  of \<open>JSON.parse(raw)\<close>, \<open>None\<close> when it throws; the code consults it only for a
  non-empty string. Every throw inside the \<open>try\<close> ends in \<open>initial\<close>.
\<close>

definition useLocalStorageState :: "json \<Rightarrow> storage_read \<Rightarrow> json option \<Rightarrow> json" where
  "useLocalStorageState initial item parsed =
     (case item of
        Throws \<Rightarrow> initial
      | Null \<Rightarrow> initial
      | Raw raw \<Rightarrow>
          if raw = [] then initial
          else (case parsed of None \<Rightarrow> initial | Some v \<Rightarrow> v))"

text \<open>The second argument of the call on lines 72-79, as a value.\<close>

definition initial_json :: json where
  "initial_json =
     JObject [(''workMin'', JNumber 25), (''breakMin'', JNumber 5),
              (''longBreakMin'', JNumber 15), (''longEvery'', JNumber 4),
              (''autoStartNext'', JBool False), (''soundOn'', JBool True)]"

text \<open>
  Reading one of the six preference properties of a loaded value, as in
  \<open>prefs.workMin\<close>: the property of an object, and \<open>None\<close> (\<open>undefined\<close>) when the
  object has none of that name or the value is a number, a string, a boolean or an
  array. On \<open>null\<close> the read throws and the page does not render; that case is \<open>None\<close>
  here as well.
\<close>

definition property :: "json \<Rightarrow> string \<Rightarrow> json option" where
  "property v k = (case v of JObject kvs \<Rightarrow> map_of kvs k | _ \<Rightarrow> None)"

text \<open>
  The loaded value is used at the type of \<open>initial\<close> without a check (\<open>as T\<close>, line 56).
  \<open>asPrefs\<close> gives the preferences the component computes with when the value does have
  that type: an object with the four numeric properties holding integers and the two
  flags holding booleans. Other properties are carried along and never read.
\<close>

definition asInt :: "json option \<Rightarrow> int option" where
  "asInt v = (case v of Some (JNumber r) \<Rightarrow> (if of_int \<lfloor>r\<rfloor> = r then Some \<lfloor>r\<rfloor> else None) | _ \<Rightarrow> None)"

definition asBool :: "json option \<Rightarrow> bool option" where
  "asBool v = (case v of Some (JBool b) \<Rightarrow> Some b | _ \<Rightarrow> None)"

definition asPrefs :: "json \<Rightarrow> prefs option" where
  "asPrefs v =
     (case (asInt (property v ''workMin''), asInt (property v ''breakMin''),
            asInt (property v ''longBreakMin''), asInt (property v ''longEvery''),
            asBool (property v ''autoStartNext''), asBool (property v ''soundOn'')) of
        (Some w, Some b, Some l, Some e, Some a, Some s) \<Rightarrow>
          Some \<lparr>workMin = w, breakMin = b, longBreakMin = l, longEvery = e,
                autoStartNext = a, soundOn = s\<rparr>
      | _ \<Rightarrow> None)"

text \<open>
  A complete preferences value, as the data model of the specification describes it:
  all six fields are there, the numeric ones integers.
\<close>

definition complete :: "json \<Rightarrow> bool" where
  "complete v = (asPrefs v \<noteq> None)"

section \<open>The second variant of the page\<close>

text \<open>
  \<open>src/unnamed/part_000\<close> is the page with theming. Its preferences have four more
  fields (lines 204-215); its scheduling functions are translated here from its own
  text, lines 23-26 and 217-320, with the suffix \<open>_v3\<close> after its storage key
  \<open>pomodoro_timer_v3\<close>. The types \<open>Phase\<close> and \<open>Preset\<close> are declared alike in both
  files (lines 5-6) and are shared.
\<close>

definition clampInt_v3 :: "jsnum \<Rightarrow> int \<Rightarrow> int \<Rightarrow> int" where
  "clampInt_v3 n lo hi =
     (if \<not> isFinite n then lo
      else (case n of
              Finite r \<Rightarrow> max lo (min hi (trunc r))
            | _ \<Rightarrow> lo))"

record prefs_v3 =
  workMin_v3 :: int
  breakMin_v3 :: int
  longBreakMin_v3 :: int
  longEvery_v3 :: int
  autoStartNext_v3 :: bool
  soundOn_v3 :: bool
  bgColor :: string
  accentColor :: string
  noise :: rat
  glow :: rat

definition PRESETS_v3 :: "preset list" where
  "PRESETS_v3 =
     [\<lparr>label = ''Ignite 2/1'', presetWorkMin = Finite 2, presetBreakMin = Finite 1,
       presetLongBreakMin = Finite 3, presetLongEvery = Finite 4\<rparr>,
      \<lparr>label = ''Classic 25/5'', presetWorkMin = Finite 25, presetBreakMin = Finite 5,
       presetLongBreakMin = Finite 15, presetLongEvery = Finite 4\<rparr>,
      \<lparr>label = ''Deep 50/10'', presetWorkMin = Finite 50, presetBreakMin = Finite 10,
       presetLongBreakMin = Finite 20, presetLongEvery = Finite 2\<rparr>]"

record closure_v3 =
  closurePrefs_v3 :: prefs_v3
  closurePhase_v3 :: Phase
  closureSessionsDone_v3 :: int

record timer_v3 =
  prefs_v3 :: prefs_v3
  phase_v3 :: Phase
  isRunning_v3 :: bool
  workSessionsDone_v3 :: int
  secondsLeft_v3 :: int
  interval_v3 :: "closure_v3 option"
  autoStarts_v3 :: nat
  beeps_v3 :: nat
  finishCalls_v3 :: nat

definition phaseTotalSeconds_v3 :: "prefs_v3 \<Rightarrow> Phase \<Rightarrow> int" where
  "phaseTotalSeconds_v3 p ph =
     (if ph = work then workMin_v3 p * 60
      else if ph = break then breakMin_v3 p * 60
      else longBreakMin_v3 p * 60)"

definition useLong_v3 :: "prefs_v3 \<Rightarrow> int \<Rightarrow> bool" where
  "useLong_v3 p nextCount =
     (if longEvery_v3 p > 0 then js_rem nextCount (longEvery_v3 p) = Some 0 else False)"

definition nextPhase_v3 :: "prefs_v3 \<Rightarrow> int \<Rightarrow> Phase \<Rightarrow> timer_v3 \<Rightarrow> timer_v3" where
  "nextPhase_v3 p sessionsDone fromPhase st =
     (if fromPhase = work then
        (let nextCount = sessionsDone + 1
         in st\<lparr>workSessionsDone_v3 := nextCount,
               phase_v3 := (if useLong_v3 p nextCount then longBreak else break)\<rparr>)
      else st\<lparr>phase_v3 := work\<rparr>)"

definition finishPhase_v3 :: "closure_v3 \<Rightarrow> timer_v3 \<Rightarrow> timer_v3" where
  "finishPhase_v3 c st =
     (let st1 = (if soundOn_v3 (closurePrefs_v3 c) then st\<lparr>beeps_v3 := beeps_v3 st + 1\<rparr> else st);
          st2 = st1\<lparr>isRunning_v3 := False, interval_v3 := None\<rparr>;
          st3 = nextPhase_v3 (closurePrefs_v3 c) (closureSessionsDone_v3 c) (closurePhase_v3 c) st2;
          st4 = (if autoStartNext_v3 (closurePrefs_v3 c)
                 then st3\<lparr>autoStarts_v3 := autoStarts_v3 st3 + 1\<rparr> else st3)
      in st4\<lparr>finishCalls_v3 := finishCalls_v3 st4 + 1\<rparr>)"

definition resetAll_v3 :: "timer_v3 \<Rightarrow> timer_v3" where
  "resetAll_v3 st =
     st\<lparr>isRunning_v3 := False, interval_v3 := None, phase_v3 := work,
        workSessionsDone_v3 := 0, secondsLeft_v3 := workMin_v3 (prefs_v3 st) * 60\<rparr>"

definition resetPhase_v3 :: "timer_v3 \<Rightarrow> timer_v3" where
  "resetPhase_v3 st =
     st\<lparr>isRunning_v3 := False, interval_v3 := None,
        secondsLeft_v3 := phaseTotalSeconds_v3 (prefs_v3 st) (phase_v3 st)\<rparr>"

definition skip_v3 :: "timer_v3 \<Rightarrow> timer_v3" where
  "skip_v3 st =
     (let st1 = st\<lparr>isRunning_v3 := False, interval_v3 := None\<rparr>;
          st2 = (if soundOn_v3 (prefs_v3 st) then st1\<lparr>beeps_v3 := beeps_v3 st1 + 1\<rparr> else st1)
      in nextPhase_v3 (prefs_v3 st) (workSessionsDone_v3 st) (phase_v3 st) st2)"

definition applyPreset_v3 :: "preset \<Rightarrow> timer_v3 \<Rightarrow> timer_v3" where
  "applyPreset_v3 ps st =
     (let newPrefs = (prefs_v3 st)\<lparr>workMin_v3 := clampInt_v3 (presetWorkMin ps) 1 180,
                                   breakMin_v3 := clampInt_v3 (presetBreakMin ps) 1 120,
                                   longBreakMin_v3 := clampInt_v3 (presetLongBreakMin ps) 1 180,
                                   longEvery_v3 := clampInt_v3 (presetLongEvery ps) 0 20\<rparr>;
          nextSeconds = (if phase_v3 st = work then workMin_v3 newPrefs * 60
                         else if phase_v3 st = break then breakMin_v3 newPrefs * 60
                         else longBreakMin_v3 newPrefs * 60)
      in st\<lparr>isRunning_v3 := False, interval_v3 := None, prefs_v3 := newPrefs,
            secondsLeft_v3 := nextSeconds\<rparr>)"

definition toggleRunning_v3 :: "timer_v3 \<Rightarrow> timer_v3" where
  "toggleRunning_v3 st = st\<lparr>isRunning_v3 := \<not> isRunning_v3 st\<rparr>"

definition setWorkMin_v3 :: "jsnum \<Rightarrow> timer_v3 \<Rightarrow> timer_v3" where
  "setWorkMin_v3 n st = st\<lparr>prefs_v3 := (prefs_v3 st)\<lparr>workMin_v3 := clampInt_v3 n 1 180\<rparr>\<rparr>"

definition setBreakMin_v3 :: "jsnum \<Rightarrow> timer_v3 \<Rightarrow> timer_v3" where
  "setBreakMin_v3 n st = st\<lparr>prefs_v3 := (prefs_v3 st)\<lparr>breakMin_v3 := clampInt_v3 n 1 120\<rparr>\<rparr>"

definition setLongBreakMin_v3 :: "jsnum \<Rightarrow> timer_v3 \<Rightarrow> timer_v3" where
  "setLongBreakMin_v3 n st =
     st\<lparr>prefs_v3 := (prefs_v3 st)\<lparr>longBreakMin_v3 := clampInt_v3 n 1 180\<rparr>\<rparr>"

definition setLongEvery_v3 :: "jsnum \<Rightarrow> timer_v3 \<Rightarrow> timer_v3" where
  "setLongEvery_v3 n st = st\<lparr>prefs_v3 := (prefs_v3 st)\<lparr>longEvery_v3 := clampInt_v3 n 0 20\<rparr>\<rparr>"

definition toggleSound_v3 :: "timer_v3 \<Rightarrow> timer_v3" where
  "toggleSound_v3 st =
     st\<lparr>prefs_v3 := (prefs_v3 st)\<lparr>soundOn_v3 := \<not> soundOn_v3 (prefs_v3 st)\<rparr>\<rparr>"

definition toggleAuto_v3 :: "timer_v3 \<Rightarrow> timer_v3" where
  "toggleAuto_v3 st =
     st\<lparr>prefs_v3 := (prefs_v3 st)\<lparr>autoStartNext_v3 := \<not> autoStartNext_v3 (prefs_v3 st)\<rparr>\<rparr>"

text \<open>
  The theming controls of the second variant (colour pickers, the noise and glow
  sliders, the palette buttons) write the four extra fields only.
\<close>

definition setBgColor :: "string \<Rightarrow> timer_v3 \<Rightarrow> timer_v3" where
  "setBgColor v st = st\<lparr>prefs_v3 := (prefs_v3 st)\<lparr>bgColor := v\<rparr>\<rparr>"

definition setAccentColor :: "string \<Rightarrow> timer_v3 \<Rightarrow> timer_v3" where
  "setAccentColor v st = st\<lparr>prefs_v3 := (prefs_v3 st)\<lparr>accentColor := v\<rparr>\<rparr>"

definition setNoise :: "jsnum \<Rightarrow> timer_v3 \<Rightarrow> timer_v3" where
  "setNoise n st = st\<lparr>prefs_v3 := (prefs_v3 st)\<lparr>noise := of_int (clampInt_v3 n 0 60) / 100\<rparr>\<rparr>"

definition setGlow :: "jsnum \<Rightarrow> timer_v3 \<Rightarrow> timer_v3" where
  "setGlow n st = st\<lparr>prefs_v3 := (prefs_v3 st)\<lparr>glow := of_int (clampInt_v3 n 0 100) / 100\<rparr>\<rparr>"

definition setPalette :: "string \<Rightarrow> string \<Rightarrow> timer_v3 \<Rightarrow> timer_v3" where
  "setPalette bg accent st = st\<lparr>prefs_v3 := (prefs_v3 st)\<lparr>bgColor := bg, accentColor := accent\<rparr>\<rparr>"

definition syncSecondsLeft_v3 :: "timer_v3 \<Rightarrow> timer_v3 \<Rightarrow> timer_v3" where
  "syncSecondsLeft_v3 old new =
     (if phaseTotalSeconds_v3 (prefs_v3 new) (phase_v3 new)
           = phaseTotalSeconds_v3 (prefs_v3 old) (phase_v3 old)
         \<and> isRunning_v3 new = isRunning_v3 old
      then new
      else if isRunning_v3 new then new
      else new\<lparr>secondsLeft_v3 := phaseTotalSeconds_v3 (prefs_v3 new) (phase_v3 new)\<rparr>)"

definition syncInterval_v3 :: "timer_v3 \<Rightarrow> timer_v3 \<Rightarrow> timer_v3 \<Rightarrow> timer_v3" where
  "syncInterval_v3 old new st =
     (if isRunning_v3 new = isRunning_v3 old then st
      else if isRunning_v3 new
      then st\<lparr>interval_v3 :=
                Some \<lparr>closurePrefs_v3 = prefs_v3 new, closurePhase_v3 = phase_v3 new,
                      closureSessionsDone_v3 = workSessionsDone_v3 new\<rparr>\<rparr>
      else st\<lparr>interval_v3 := None\<rparr>)"

definition effects_v3 :: "timer_v3 \<Rightarrow> timer_v3 \<Rightarrow> timer_v3" where
  "effects_v3 old new = syncInterval_v3 old new (syncSecondsLeft_v3 old new)"

definition tickUpdater_v3 :: "int \<Rightarrow> int \<times> bool" where
  "tickUpdater_v3 s = (if s \<le> 1 then (0, True) else (s - 1, False))"

definition tick_v3 :: "timer_v3 \<Rightarrow> timer_v3" where
  "tick_v3 st =
     (case interval_v3 st of
        None \<Rightarrow> st
      | Some c \<Rightarrow>
          (let st1 = st\<lparr>secondsLeft_v3 := fst (tickUpdater_v3 (secondsLeft_v3 st))\<rparr>
           in if snd (tickUpdater_v3 (secondsLeft_v3 st))
              then effects_v3 st1 (finishPhase_v3 c st1)
              else st1))"

definition autoStart_v3 :: "timer_v3 \<Rightarrow> timer_v3" where
  "autoStart_v3 st =
     (if autoStarts_v3 st = 0 then st
      else effects_v3 st (st\<lparr>isRunning_v3 := True, autoStarts_v3 := autoStarts_v3 st - 1\<rparr>))"

datatype event_v3 =
    Scheduling event
  | SetBgColor string | SetAccentColor string | SetNoise jsnum | SetGlow jsnum
  | SetPalette string string

primrec step_core_v3 :: "event \<Rightarrow> timer_v3 \<Rightarrow> timer_v3" where
  "step_core_v3 Toggle st = effects_v3 st (toggleRunning_v3 st)"
| "step_core_v3 ResetPhase st = effects_v3 st (resetPhase_v3 st)"
| "step_core_v3 Skip st = effects_v3 st (skip_v3 st)"
| "step_core_v3 ResetAll st = effects_v3 st (resetAll_v3 st)"
| "step_core_v3 (ApplyPreset ps) st = effects_v3 st (applyPreset_v3 ps st)"
| "step_core_v3 (SetWorkMin n) st = effects_v3 st (setWorkMin_v3 n st)"
| "step_core_v3 (SetBreakMin n) st = effects_v3 st (setBreakMin_v3 n st)"
| "step_core_v3 (SetLongBreakMin n) st = effects_v3 st (setLongBreakMin_v3 n st)"
| "step_core_v3 (SetLongEvery n) st = effects_v3 st (setLongEvery_v3 n st)"
| "step_core_v3 ToggleSound st = effects_v3 st (toggleSound_v3 st)"
| "step_core_v3 ToggleAuto st = effects_v3 st (toggleAuto_v3 st)"
| "step_core_v3 Tick st = tick_v3 st"
| "step_core_v3 AutoStart st = autoStart_v3 st"

primrec step_v3 :: "event_v3 \<Rightarrow> timer_v3 \<Rightarrow> timer_v3" where
  "step_v3 (Scheduling e) st = step_core_v3 e st"
| "step_v3 (SetBgColor v) st = effects_v3 st (setBgColor v st)"
| "step_v3 (SetAccentColor v) st = effects_v3 st (setAccentColor v st)"
| "step_v3 (SetNoise n) st = effects_v3 st (setNoise n st)"
| "step_v3 (SetGlow n) st = effects_v3 st (setGlow n st)"
| "step_v3 (SetPalette bg accent) st = effects_v3 st (setPalette bg accent st)"

primrec run_v3 :: "event_v3 list \<Rightarrow> timer_v3 \<Rightarrow> timer_v3" where
  "run_v3 [] st = st"
| "run_v3 (e # es) st = run_v3 es (step_v3 e st)"

text \<open>
  What the first variant sees of a state of the second: the theming fields are
  forgotten, in the preferences and in the closure of the interval.
\<close>

definition scheduling_prefs :: "prefs_v3 \<Rightarrow> prefs" where
  "scheduling_prefs p =
     \<lparr>workMin = workMin_v3 p, breakMin = breakMin_v3 p, longBreakMin = longBreakMin_v3 p,
      longEvery = longEvery_v3 p, autoStartNext = autoStartNext_v3 p, soundOn = soundOn_v3 p\<rparr>"

definition scheduling_closure :: "closure_v3 \<Rightarrow> closure" where
  "scheduling_closure c =
     \<lparr>closurePrefs = scheduling_prefs (closurePrefs_v3 c), closurePhase = closurePhase_v3 c,
      closureSessionsDone = closureSessionsDone_v3 c\<rparr>"

definition scheduling :: "timer_v3 \<Rightarrow> timer" where
  "scheduling st =
     \<lparr>prefs = scheduling_prefs (prefs_v3 st), phase = phase_v3 st,
      isRunning = isRunning_v3 st, workSessionsDone = workSessionsDone_v3 st,
      secondsLeft = secondsLeft_v3 st,
      interval = map_option scheduling_closure (interval_v3 st),
      autoStarts = autoStarts_v3 st, beeps = beeps_v3 st, finishCalls = finishCalls_v3 st\<rparr>"

primrec scheduling_events :: "event_v3 list \<Rightarrow> event list" where
  "scheduling_events [] = []"
| "scheduling_events (e # es) =
     (case e of Scheduling x \<Rightarrow> x # scheduling_events es | _ \<Rightarrow> scheduling_events es)"

section \<open>Predicates and states used in the statements\<close>

text \<open>The declared ranges of the four numeric preferences (the bounds of lines 173-176).\<close>

definition inRange :: "prefs \<Rightarrow> bool" where
  "inRange p =
     (1 \<le> workMin p \<and> workMin p \<le> 180 \<and> 1 \<le> breakMin p \<and> breakMin p \<le> 120
      \<and> 1 \<le> longBreakMin p \<and> longBreakMin p \<le> 180 \<and> 0 \<le> longEvery p \<and> longEvery p \<le> 20)"

definition durationsNonneg :: "prefs \<Rightarrow> bool" where
  "durationsNonneg p = (0 \<le> workMin p \<and> 0 \<le> breakMin p \<and> 0 \<le> longBreakMin p)"

definition shown :: "timer \<Rightarrow> bool" where
  "shown st = (durationsNonneg (prefs st) \<and> 0 \<le> secondsLeft st)"

text \<open>
  What holds of every state the page reaches (lemma \<open>coherent_run\<close>): the interval is
  live exactly while the timer runs; a timer that is not running shows the full
  duration of its phase; and the closure of a live interval holds the current phase
  and session count (its preferences alone can be out of date).
\<close>

definition coherent :: "timer \<Rightarrow> bool" where
  "coherent st =
     ((isRunning st \<longleftrightarrow> interval st \<noteq> None)
      \<and> (isRunning st \<or> secondsLeft st = phaseTotalSeconds (prefs st) (phase st))
      \<and> (case interval st of
            None \<Rightarrow> True
          | Some c \<Rightarrow> closurePhase c = phase st \<and> closureSessionsDone c = workSessionsDone st))"

text \<open>
  The two numbers \<open>mmss\<close> (lines 21-26) prints, minutes and seconds; the padding to
  two digits is left out.
\<close>

definition mmss :: "int \<Rightarrow> int \<times> int" where
  "mmss totalSeconds = (let s = max 0 totalSeconds in (s div 60, s mod 60))"

text \<open>
  A stored record with a negative work duration, as \<open>JSON.parse\<close> returns it, and the
  preferences the component then computes with.
\<close>

definition tampered_record :: json where
  "tampered_record =
     JObject [(''workMin'', JNumber (- 5)), (''breakMin'', JNumber 5),
              (''longBreakMin'', JNumber 15), (''longEvery'', JNumber 4),
              (''autoStartNext'', JBool False), (''soundOn'', JBool True)]"

definition tampered_prefs :: prefs where
  "tampered_prefs =
     \<lparr>workMin = - 5, breakMin = 5, longBreakMin = 15, longEvery = 4,
      autoStartNext = False, soundOn = True\<rparr>"

text \<open>
  Default preferences; Start; one second passes; Pause.
\<close>

definition paused_after_one_second :: timer where
  "paused_after_one_second = run [Toggle, Tick, Toggle] (mount initial_prefs)"

text \<open>
  Default preferences; the work duration is set to one minute; Start; while the timer
  runs, "Long every" is changed from 4 to 1.
\<close>

definition cadence_raised_while_running :: timer where
  "cadence_raised_while_running =
     run [SetWorkMin (Finite 1), Toggle, SetLongEvery (Finite 1)] (mount initial_prefs)"

text \<open>
  Default preferences; the work duration is set to one minute; six times Skip (three
  work sessions done, back in the work phase); Start; while the timer runs, "Long
  every" is changed from 4 to 0.
\<close>

definition cadence_switched_off_while_running :: timer where
  "cadence_switched_off_while_running =
     run [SetWorkMin (Finite 1), Skip, Skip, Skip, Skip, Skip, Skip, Toggle,
          SetLongEvery (Finite 0)] (mount initial_prefs)"


text \<open>Default preferences; Skip to the break; Start; one second passes.\<close>

definition break_running :: timer where
  "break_running = run [Skip, Toggle, Tick] (mount initial_prefs)"

section \<open>Clamping\<close>

lemma clampInt_range: "lo \<le> hi \<Longrightarrow> lo \<le> clampInt n lo hi \<and> clampInt n lo hi \<le> hi"
  by (cases n) (simp_all add: clampInt_def)


section \<open>The countdown\<close>

lemmas handler_defs =
  toggleRunning_def resetPhase_def skip_def resetAll_def applyPreset_def
  setWorkMin_def setBreakMin_def setLongBreakMin_def setLongEvery_def
  toggleSound_def toggleAuto_def

lemmas effect_defs = effects_def syncSecondsLeft_def syncInterval_def

lemma tick_decrement:
  "interval st = Some c \<Longrightarrow> 1 < secondsLeft st \<Longrightarrow>
     tick st = st\<lparr>secondsLeft := secondsLeft st - 1\<rparr>"
  by (simp add: tick_def tickUpdater_def)

lemma tick_exhausts:
  "interval st = Some c \<Longrightarrow> secondsLeft st \<le> 1 \<Longrightarrow>
     tick st = effects (st\<lparr>secondsLeft := 0\<rparr>) (finishPhase c (st\<lparr>secondsLeft := 0\<rparr>))"
  by (simp add: tick_def tickUpdater_def Let_def)


lemma ticks_decrement:
  "interval st = Some c \<Longrightarrow> int n < secondsLeft st \<Longrightarrow>
     ticks n st = st\<lparr>secondsLeft := secondsLeft st - int n\<rparr>"
proof (induction n arbitrary: st)
  case 0
  then show ?case by simp
next
  case (Suc n)
  from Suc.prems have t: "tick st = st\<lparr>secondsLeft := secondsLeft st - 1\<rparr>"
    by (simp add: tick_decrement)
  have "ticks n (tick st) = (tick st)\<lparr>secondsLeft := secondsLeft (tick st) - int n\<rparr>"
    using Suc.prems by (intro Suc.IH) (simp_all add: t)
  then show ?case by (simp add: t algebra_simps)
qed

lemma ticks_add: "ticks (m + n) st = ticks n (ticks m st)"
  by (induction m arbitrary: st) simp_all





section \<open>What the effects leave alone\<close>

lemma prefs_effects [simp]: "prefs (effects old new) = prefs new"
  by (simp add: effect_defs)

lemma phase_effects [simp]: "phase (effects old new) = phase new"
  by (simp add: effect_defs)

lemma isRunning_effects [simp]: "isRunning (effects old new) = isRunning new"
  by (simp add: effect_defs)

lemma workSessionsDone_effects [simp]:
  "workSessionsDone (effects old new) = workSessionsDone new"
  by (simp add: effect_defs)

lemma secondsLeft_effects_cases:
  "secondsLeft (effects old new) = secondsLeft new
   \<or> secondsLeft (effects old new) = phaseTotalSeconds (prefs new) (phase new)"
  by (simp add: effect_defs)

lemma prefs_finish: "prefs (finishPhase c st) = prefs st"
  by (simp add: finishPhase_def nextPhase_def Let_def)

lemma secondsLeft_finish: "secondsLeft (finishPhase c st) = secondsLeft st"
  by (simp add: finishPhase_def nextPhase_def Let_def)

lemma prefs_tick: "prefs (tick st) = prefs st"
  by (simp add: tick_def prefs_finish Let_def split: option.splits)

lemma prefs_autoStart: "prefs (autoStart st) = prefs st"
  by (simp add: autoStart_def)

lemma ticks_to_finish:
  assumes live: "interval st = Some c" and s: "1 \<le> secondsLeft st"
  shows "ticks (nat (secondsLeft st)) st =
           effects (st\<lparr>secondsLeft := 0\<rparr>) (finishPhase c (st\<lparr>secondsLeft := 0\<rparr>))"
proof -
  define k where "k = nat (secondsLeft st) - 1"
  have k: "int k = secondsLeft st - 1" using s by (simp add: k_def)
  have n: "nat (secondsLeft st) = k + Suc 0" using s by (simp add: k_def)
  have before: "ticks k st = st\<lparr>secondsLeft := 1\<rparr>"
    using ticks_decrement [OF live, of k] k by simp
  have "ticks (k + Suc 0) st = ticks (Suc 0) (ticks k st)" by (rule ticks_add)
  then show ?thesis
    unfolding n before using live by (simp add: tick_exhausts)
qed

lemmas eval_defs =
  mount_def initial_prefs_def handler_defs effect_defs nextPhase_def useLong_def js_rem_def
  finishPhase_def tick_def tickUpdater_def autoStart_def phaseTotalSeconds_def clampInt_def
  trunc_def Let_def

section \<open>States the page reaches\<close>

lemma coherent_mount: "coherent (mount p)"
  by (simp add: coherent_def mount_def)

lemma coherent_effects_idle:
  assumes "\<not> isRunning new" "isRunning old \<or> interval new = None"
    and "isRunning old \<or> secondsLeft new = phaseTotalSeconds (prefs new) (phase new)
        \<or> phaseTotalSeconds (prefs new) (phase new) \<noteq> phaseTotalSeconds (prefs old) (phase old)"
  shows "coherent (effects old new)"
  using assms by (auto simp add: coherent_def effect_defs)

lemma coherent_effects_same:
  assumes "coherent old" "isRunning new = isRunning old" "interval new = interval old"
    "phase new = phase old" "workSessionsDone new = workSessionsDone old"
    "secondsLeft new = secondsLeft old"
  shows "coherent (effects old new)"
  using assms by (auto simp add: coherent_def effect_defs split: option.splits)

lemma coherent_effects_start:
  assumes "\<not> isRunning old" "isRunning new"
  shows "coherent (effects old new)"
  using assms by (simp add: coherent_def effect_defs)

lemma coherent_tick:
  assumes c: "coherent st"
  shows "coherent (tick st)"
proof (cases "interval st")
  case None
  then show ?thesis using c by (simp add: tick_def)
next
  case (Some cl)
  with c have r: "isRunning st" by (simp add: coherent_def)
  show ?thesis
  proof (cases "secondsLeft st \<le> 1")
    case True
    have "coherent (effects (st\<lparr>secondsLeft := 0\<rparr>) (finishPhase cl (st\<lparr>secondsLeft := 0\<rparr>)))"
      using r by (intro coherent_effects_idle) (simp_all add: finishPhase_def nextPhase_def Let_def)
    then show ?thesis using Some True by (simp add: tick_exhausts)
  next
    case False
    then show ?thesis using Some c by (simp add: tick_decrement coherent_def)
  qed
qed

lemma skip_facts:
  "\<not> isRunning (skip st)" "interval (skip st) = None" "secondsLeft (skip st) = secondsLeft st"
  by (simp_all add: skip_def nextPhase_def Let_def)

lemma coherent_step:
  assumes c: "coherent st"
  shows "coherent (step e st)"
proof (cases e)
  case Toggle
  show ?thesis
  proof (cases "isRunning st")
    case True
    have "coherent (effects st (toggleRunning st))"
      using True c by (intro coherent_effects_idle) (simp_all add: toggleRunning_def coherent_def)
    then show ?thesis using Toggle by simp
  next
    case False
    have "coherent (effects st (toggleRunning st))"
      using False by (intro coherent_effects_start) (simp_all add: toggleRunning_def)
    then show ?thesis using Toggle by simp
  qed
next
  case ResetPhase
  then show ?thesis by (simp add: coherent_effects_idle resetPhase_def)
next
  case Skip
  have "coherent (effects st (skip st))"
  proof (rule coherent_effects_idle)
    show "\<not> isRunning (skip st)" by (rule skip_facts)
    show "isRunning st \<or> interval (skip st) = None" by (simp add: skip_facts)
    show "isRunning st \<or> secondsLeft (skip st) = phaseTotalSeconds (prefs (skip st)) (phase (skip st))
        \<or> phaseTotalSeconds (prefs (skip st)) (phase (skip st)) \<noteq> phaseTotalSeconds (prefs st) (phase st)"
      using c unfolding skip_facts coherent_def by metis
  qed
  then show ?thesis using Skip by simp
next
  case ResetAll
  then show ?thesis
    by (simp add: coherent_effects_idle resetAll_def phaseTotalSeconds_def)
next
  case (ApplyPreset ps)
  then show ?thesis
    by (simp add: coherent_effects_idle applyPreset_def phaseTotalSeconds_def Let_def)
next
  case (SetWorkMin n)
  show ?thesis
  proof (cases "isRunning st")
    case True
    have "coherent (effects st (setWorkMin n st))"
      using c True by (intro coherent_effects_same) (simp_all add: setWorkMin_def)
    then show ?thesis using SetWorkMin by simp
  next
    case False
    have "coherent (effects st (setWorkMin n st))"
      using c False by (intro coherent_effects_idle) (auto simp add: setWorkMin_def coherent_def)
    then show ?thesis using SetWorkMin by simp
  qed
next
  case (SetBreakMin n)
  show ?thesis
  proof (cases "isRunning st")
    case True
    have "coherent (effects st (setBreakMin n st))"
      using c True by (intro coherent_effects_same) (simp_all add: setBreakMin_def)
    then show ?thesis using SetBreakMin by simp
  next
    case False
    have "coherent (effects st (setBreakMin n st))"
      using c False by (intro coherent_effects_idle) (auto simp add: setBreakMin_def coherent_def)
    then show ?thesis using SetBreakMin by simp
  qed
next
  case (SetLongBreakMin n)
  show ?thesis
  proof (cases "isRunning st")
    case True
    have "coherent (effects st (setLongBreakMin n st))"
      using c True by (intro coherent_effects_same) (simp_all add: setLongBreakMin_def)
    then show ?thesis using SetLongBreakMin by simp
  next
    case False
    have "coherent (effects st (setLongBreakMin n st))"
      using c False by (intro coherent_effects_idle) (auto simp add: setLongBreakMin_def coherent_def)
    then show ?thesis using SetLongBreakMin by simp
  qed
next
  case (SetLongEvery n)
  have "coherent (effects st (setLongEvery n st))"
    using c by (intro coherent_effects_same) (simp_all add: setLongEvery_def)
  then show ?thesis using SetLongEvery by simp
next
  case ToggleSound
  have "coherent (effects st (toggleSound st))"
    using c by (intro coherent_effects_same) (simp_all add: toggleSound_def)
  then show ?thesis using ToggleSound by simp
next
  case ToggleAuto
  have "coherent (effects st (toggleAuto st))"
    using c by (intro coherent_effects_same) (simp_all add: toggleAuto_def)
  then show ?thesis using ToggleAuto by simp
next
  case Tick
  then show ?thesis using c by (simp add: coherent_tick)
next
  case AutoStart
  show ?thesis
  proof (cases "autoStarts st = 0 \<or> isRunning st")
    case True
    have "coherent (autoStart st)"
    proof (cases "autoStarts st = 0")
      case True
      then show ?thesis using c by (simp add: autoStart_def)
    next
      case False
      with True have r: "isRunning st" by simp
      have "coherent (effects st (st\<lparr>isRunning := True, autoStarts := autoStarts st - 1\<rparr>))"
        using c r by (intro coherent_effects_same) simp_all
      then show ?thesis using False by (simp add: autoStart_def)
    qed
    then show ?thesis using AutoStart by simp
  next
    case False
    have "coherent (effects st (st\<lparr>isRunning := True, autoStarts := autoStarts st - 1\<rparr>))"
      using False by (intro coherent_effects_start) simp_all
    then show ?thesis using AutoStart False by (simp add: autoStart_def)
  qed
qed

lemma coherent_run: "coherent st \<Longrightarrow> coherent (run es st)"
  by (induction es arbitrary: st) (simp_all add: coherent_step)

lemma idle_shows_full_duration:
  "isRunning (run es (mount p))
   \<or> secondsLeft (run es (mount p)) =
        phaseTotalSeconds (prefs (run es (mount p))) (phase (run es (mount p)))"
proof -
  have "coherent (run es (mount p))" by (rule coherent_run) (rule coherent_mount)
  then show ?thesis unfolding coherent_def by blast
qed

section \<open>The transition rule\<close>

text \<open>
  What \<open>nextPhase\<close> computes from the preferences and the count it is given; Skip
  gives it those of the current state. From the defaults, the work sessions 1 to 3
  end in the short break and the fourth in the long break.
\<close>

lemma js_rem_zero: "0 < b \<Longrightarrow> (js_rem a b = Some 0) = (a mod b = 0)"
  by (auto simp add: js_rem_def sgn_if mod_eq_0_iff_dvd)

lemma useLong_rule: "useLong p n = (0 < longEvery p \<and> n mod longEvery p = 0)"
  by (simp add: useLong_def js_rem_zero)

lemma useLong_off: "longEvery p = 0 \<Longrightarrow> \<not> useLong p n"
  by (simp add: useLong_def)

lemma nextPhase_rule:
  "workSessionsDone (nextPhase p k work st) = k + 1"
  "phase (nextPhase p k work st) =
        (if 0 < longEvery p \<and> (k + 1) mod longEvery p = 0 then longBreak else break)"
  "ph \<noteq> work \<Longrightarrow> phase (nextPhase p k ph st) = work"
  "ph \<noteq> work \<Longrightarrow> workSessionsDone (nextPhase p k ph st) = workSessionsDone st"
  "longEvery p = 0 \<Longrightarrow> phase (nextPhase p k ph st) \<noteq> longBreak"
  by (simp_all add: nextPhase_def useLong_rule Let_def)

lemma skip_reads_the_state:
  "phase (step Skip st) = phase (nextPhase (prefs st) (workSessionsDone st) (phase st) st)"
  "workSessionsDone (step Skip st) =
     workSessionsDone (nextPhase (prefs st) (workSessionsDone st) (phase st) st)"
  by (simp_all add: nextPhase_def skip_def Let_def)

lemma cadence_of_four:
  "phase (run [Skip] (mount initial_prefs)) = break"
  "phase (run [Skip, Skip, Skip] (mount initial_prefs)) = break"
  "phase (run [Skip, Skip, Skip, Skip, Skip] (mount initial_prefs)) = break"
  "phase (run [Skip, Skip, Skip, Skip, Skip, Skip, Skip] (mount initial_prefs)) = longBreak"
  "workSessionsDone (run [Skip, Skip, Skip, Skip, Skip, Skip, Skip] (mount initial_prefs)) = 4"
  by (simp_all add: eval_defs)

section \<open>Pausing\<close>

lemma pause_resets:
  "isRunning st \<Longrightarrow>
     step Toggle st =
       st\<lparr>isRunning := False, secondsLeft := phaseTotalSeconds (prefs st) (phase st),
          interval := None\<rparr>"
  by (simp add: toggleRunning_def effect_defs)

text \<open>
  Claim C1, at a failing input. With the default preferences the timer is started and
  one second passes: it runs with 1499 seconds left. Pause then stops it, and the
  effect of lines 93-95, which has \<open>isRunning\<close> among its dependencies, writes the
  full duration of the phase: 1500 seconds are left, not the 1499 the claim retains.
\<close>

theorem pause_discards_the_residual:
  "secondsLeft (run [Toggle, Tick] (mount initial_prefs)) = 1499
   \<and> isRunning (run [Toggle, Tick] (mount initial_prefs))
   \<and> \<not> isRunning paused_after_one_second
   \<and> phase paused_after_one_second = work
   \<and> secondsLeft paused_after_one_second = 1500"
  by (simp add: paused_after_one_second_def eval_defs)

section \<open>The cadence read at expiry\<close>

lemma cadence_raised_state:
  "cadence_raised_while_running =
     \<lparr>prefs = \<lparr>workMin = 1, breakMin = 5, longBreakMin = 15, longEvery = 1,
               autoStartNext = False, soundOn = True\<rparr>,
      phase = work, isRunning = True, workSessionsDone = 0, secondsLeft = 60,
      interval = Some \<lparr>closurePrefs = \<lparr>workMin = 1, breakMin = 5, longBreakMin = 15,
                                        longEvery = 4, autoStartNext = False, soundOn = True\<rparr>,
                        closurePhase = work, closureSessionsDone = 0\<rparr>,
      autoStarts = 0, beeps = 0, finishCalls = 0\<rparr>"
  by (simp add: cadence_raised_while_running_def eval_defs)

lemma cadence_switched_off_state:
  "cadence_switched_off_while_running =
     \<lparr>prefs = \<lparr>workMin = 1, breakMin = 5, longBreakMin = 15, longEvery = 0,
               autoStartNext = False, soundOn = True\<rparr>,
      phase = work, isRunning = True, workSessionsDone = 3, secondsLeft = 60,
      interval = Some \<lparr>closurePrefs = \<lparr>workMin = 1, breakMin = 5, longBreakMin = 15,
                                        longEvery = 4, autoStartNext = False, soundOn = True\<rparr>,
                        closurePhase = work, closureSessionsDone = 3\<rparr>,
      autoStarts = 0, beeps = 6, finishCalls = 0\<rparr>"
  by (simp add: cadence_switched_off_while_running_def eval_defs)

text \<open>
  Claim C3, at a failing input. The timer runs in the work phase with no session done,
  and "Long every" has been changed to 1 since it was started. The preferences say 1,
  and 1 divides the incremented count 1, so the claim's transition is to the long
  break; Skip from this very state goes there. The expiry after 60 seconds goes to the
  short break: \<open>finishPhase\<close> is the one of the render that started the interval and
  reads the cadence 4 of that render.
\<close>

theorem expiry_reads_the_cadence_of_the_start:
  "phase cadence_raised_while_running = work
   \<and> isRunning cadence_raised_while_running
   \<and> workSessionsDone cadence_raised_while_running = 0
   \<and> longEvery (prefs cadence_raised_while_running) = 1
   \<and> secondsLeft cadence_raised_while_running = 60
   \<and> workSessionsDone (ticks 60 cadence_raised_while_running) = 1
   \<and> phase (ticks 60 cadence_raised_while_running) = break
   \<and> longEvery (prefs (ticks 60 cadence_raised_while_running)) = 1
   \<and> phase (step Skip cadence_raised_while_running) = longBreak"
proof -
  let ?s = cadence_raised_while_running
  have "ticks (nat (secondsLeft ?s)) ?s =
          effects (?s\<lparr>secondsLeft := 0\<rparr>)
            (finishPhase (the (interval ?s)) (?s\<lparr>secondsLeft := 0\<rparr>))"
    by (rule ticks_to_finish) (simp_all add: cadence_raised_state)
  then have "ticks 60 ?s =
          effects (?s\<lparr>secondsLeft := 0\<rparr>)
            (finishPhase (the (interval ?s)) (?s\<lparr>secondsLeft := 0\<rparr>))"
    by (simp add: cadence_raised_state)
  then show ?thesis
    by (simp add: cadence_raised_state eval_defs)
qed

text \<open>
  Claim C4, at a failing input. The timer runs in the work phase with three sessions
  done, and "Long every" has been set to 0 since it was started. The preferences say
  0, long breaks are off, and Skip from this state goes to the short break. The expiry
  after 60 seconds goes to the long break, with the cadence still 0 in the preferences:
  the same stale \<open>finishPhase\<close> as for claim C3.
\<close>

theorem expiry_long_break_while_cadence_is_off:
  "phase cadence_switched_off_while_running = work
   \<and> isRunning cadence_switched_off_while_running
   \<and> workSessionsDone cadence_switched_off_while_running = 3
   \<and> longEvery (prefs cadence_switched_off_while_running) = 0
   \<and> secondsLeft cadence_switched_off_while_running = 60
   \<and> longEvery (prefs (ticks 60 cadence_switched_off_while_running)) = 0
   \<and> workSessionsDone (ticks 60 cadence_switched_off_while_running) = 4
   \<and> phase (ticks 60 cadence_switched_off_while_running) = longBreak
   \<and> phase (step Skip cadence_switched_off_while_running) = break"
proof -
  let ?s = cadence_switched_off_while_running
  have "ticks (nat (secondsLeft ?s)) ?s =
          effects (?s\<lparr>secondsLeft := 0\<rparr>)
            (finishPhase (the (interval ?s)) (?s\<lparr>secondsLeft := 0\<rparr>))"
    by (rule ticks_to_finish) (simp_all add: cadence_switched_off_state)
  then have "ticks 60 ?s =
          effects (?s\<lparr>secondsLeft := 0\<rparr>)
            (finishPhase (the (interval ?s)) (?s\<lparr>secondsLeft := 0\<rparr>))"
    by (simp add: cadence_switched_off_state)
  then show ?thesis
    by (simp add: cadence_switched_off_state eval_defs)
qed

section \<open>Reset, preference edits and presets\<close>

text \<open>
  Claim C5. From any state, "Reset all" leaves the work phase, not running, with
  \<open>workMin * 60\<close> seconds, no session done and the preferences as they were; the
  interval is cleared.
\<close>

theorem resetAll_yields_fresh_work:
  "phase (step ResetAll st) = work
   \<and> \<not> isRunning (step ResetAll st)
   \<and> secondsLeft (step ResetAll st) = workMin (prefs st) * 60
   \<and> workSessionsDone (step ResetAll st) = 0
   \<and> prefs (step ResetAll st) = prefs st
   \<and> interval (step ResetAll st) = None"
  by (simp add: resetAll_def effect_defs phaseTotalSeconds_def)




text \<open>
  Claim C7. Applying a preset stops the timer and clears the interval; the four
  numeric preferences become the preset's values, each clamped to its range, and the
  two flags stay; \<open>secondsLeft\<close> becomes the full duration of the current phase under
  the new preferences; phase and session count stay. In a running break the phase
  stays the break and \<open>secondsLeft\<close> becomes 60 times the clamped break minutes, which
  are the preset's own break minutes when these are an integer from 1 to 120, as for
  every preset of the catalogue.
\<close>

theorem applyPreset_frame:
  "\<not> isRunning (step (ApplyPreset ps) st)
   \<and> interval (step (ApplyPreset ps) st) = None
   \<and> prefs (step (ApplyPreset ps) st) =
        (prefs st)\<lparr>workMin := clampInt (presetWorkMin ps) 1 180,
                   breakMin := clampInt (presetBreakMin ps) 1 120,
                   longBreakMin := clampInt (presetLongBreakMin ps) 1 180,
                   longEvery := clampInt (presetLongEvery ps) 0 20\<rparr>
   \<and> inRange (prefs (step (ApplyPreset ps) st))
   \<and> secondsLeft (step (ApplyPreset ps) st) =
        phaseTotalSeconds (prefs (step (ApplyPreset ps) st)) (phase st)
   \<and> phase (step (ApplyPreset ps) st) = phase st
   \<and> workSessionsDone (step (ApplyPreset ps) st) = workSessionsDone st
   \<and> autoStartNext (prefs (step (ApplyPreset ps) st)) = autoStartNext (prefs st)
   \<and> soundOn (prefs (step (ApplyPreset ps) st)) = soundOn (prefs st)
   \<and> (phase st = break \<and> isRunning st \<longrightarrow>
        phase (step (ApplyPreset ps) st) = break
        \<and> secondsLeft (step (ApplyPreset ps) st) = clampInt (presetBreakMin ps) 1 120 * 60)
   \<and> (\<forall>b. presetBreakMin ps = Finite (of_int b) \<and> 1 \<le> b \<and> b \<le> 120 \<longrightarrow>
        clampInt (presetBreakMin ps) 1 120 = b)
   \<and> (\<forall>q \<in> set PRESETS.
        Finite (of_int (clampInt (presetWorkMin q) 1 180)) = presetWorkMin q
        \<and> Finite (of_int (clampInt (presetBreakMin q) 1 120)) = presetBreakMin q
        \<and> Finite (of_int (clampInt (presetLongBreakMin q) 1 180)) = presetLongBreakMin q
        \<and> Finite (of_int (clampInt (presetLongEvery q) 0 20)) = presetLongEvery q)"
proof -
  have a: "\<not> isRunning (step (ApplyPreset ps) st)" by (simp add: applyPreset_def Let_def)
  have b: "interval (step (ApplyPreset ps) st) = None"
    by (simp add: applyPreset_def effect_defs Let_def)
  have c: "prefs (step (ApplyPreset ps) st) =
        (prefs st)\<lparr>workMin := clampInt (presetWorkMin ps) 1 180,
                   breakMin := clampInt (presetBreakMin ps) 1 120,
                   longBreakMin := clampInt (presetLongBreakMin ps) 1 180,
                   longEvery := clampInt (presetLongEvery ps) 0 20\<rparr>"
    by (simp add: applyPreset_def Let_def)
  have r: "inRange (prefs (step (ApplyPreset ps) st))"
    unfolding c
    using clampInt_range [of 1 180 "presetWorkMin ps"]
      clampInt_range [of 1 120 "presetBreakMin ps"]
      clampInt_range [of 1 180 "presetLongBreakMin ps"]
      clampInt_range [of 0 20 "presetLongEvery ps"]
    by (simp add: inRange_def)
  have d: "secondsLeft (step (ApplyPreset ps) st) =
        phaseTotalSeconds (prefs (step (ApplyPreset ps) st)) (phase st)"
    by (simp add: applyPreset_def effect_defs phaseTotalSeconds_def Let_def)
  have e: "phase (step (ApplyPreset ps) st) = phase st"
    "workSessionsDone (step (ApplyPreset ps) st) = workSessionsDone st"
    by (simp_all add: applyPreset_def Let_def)
  have f: "clampInt (Finite (of_int b)) 1 120 = b" if "1 \<le> b" "b \<le> 120" for b
    using that by (simp add: clampInt_def trunc_def)
  have g: "\<forall>q \<in> set PRESETS.
        Finite (of_int (clampInt (presetWorkMin q) 1 180)) = presetWorkMin q
        \<and> Finite (of_int (clampInt (presetBreakMin q) 1 120)) = presetBreakMin q
        \<and> Finite (of_int (clampInt (presetLongBreakMin q) 1 180)) = presetLongBreakMin q
        \<and> Finite (of_int (clampInt (presetLongEvery q) 0 20)) = presetLongEvery q"
    by (simp add: PRESETS_def clampInt_def trunc_def)
  show ?thesis
    using a b c r d e f g by (simp add: phaseTotalSeconds_def)
qed

text \<open>
  The theorem at a running break with 299 seconds left and the preset "Deep 50/10":
  the phase stays the break, the timer stops, and 600 seconds are left.
\<close>

theorem applyPreset_frame_witness:
  "phase break_running = break \<and> isRunning break_running \<and> secondsLeft break_running = 299
   \<and> PRESETS ! 2 \<in> set PRESETS
   \<and> presetBreakMin (PRESETS ! 2) = Finite 10
   \<and> phase (step (ApplyPreset (PRESETS ! 2)) break_running) = break
   \<and> \<not> isRunning (step (ApplyPreset (PRESETS ! 2)) break_running)
   \<and> secondsLeft (step (ApplyPreset (PRESETS ! 2)) break_running) = 600"
proof -
  let ?ps = "PRESETS ! 2"
  have st: "phase break_running = break" "isRunning break_running"
    "secondsLeft break_running = 299"
    by (simp_all add: break_running_def eval_defs)
  have ps: "?ps \<in> set PRESETS" "presetBreakMin ?ps = Finite 10"
    by (simp_all add: PRESETS_def)
  note t = applyPreset_frame [of ?ps break_running]
  from t have r: "\<not> isRunning (step (ApplyPreset ?ps) break_running)" by blast
  from t st have p: "phase (step (ApplyPreset ?ps) break_running) = break"
    and s: "secondsLeft (step (ApplyPreset ?ps) break_running)
              = clampInt (presetBreakMin ?ps) 1 120 * 60"
    by blast+
  from t ps(1) have "Finite (of_int (clampInt (presetBreakMin ?ps) 1 120)) = presetBreakMin ?ps"
    by blast
  then have "clampInt (presetBreakMin ?ps) 1 120 = 10" unfolding ps(2) by simp
  with s have "secondsLeft (step (ApplyPreset ?ps) break_running) = 600" by simp
  with st ps r p show ?thesis by blast
qed

section \<open>Loading\<close>

text \<open>
  Claim C8, as the code has it. The initialiser never raises. It returns \<open>initial\<close>
  when reading the storage throws, when there is no item, when the item is the empty
  string and when \<open>JSON.parse\<close> throws; for every other item it returns what
  \<open>JSON.parse\<close> returned, as it is.
\<close>

theorem load_gives_initial_or_the_parsed_value:
  "useLocalStorageState initial Throws parsed = initial
   \<and> useLocalStorageState initial Null parsed = initial
   \<and> useLocalStorageState initial (Raw []) parsed = initial
   \<and> (raw \<noteq> [] \<longrightarrow> useLocalStorageState initial (Raw raw) None = initial)
   \<and> (raw \<noteq> [] \<longrightarrow> useLocalStorageState initial (Raw raw) (Some v) = v)"
  by (simp add: useLocalStorageState_def)

theorem load_gives_initial_or_the_parsed_value_witness:
  \<open>''{"workMin":30}'' \<noteq> []
   \<and> useLocalStorageState initial_json (Raw ''{"workMin":30}'') None = initial_json
   \<and> useLocalStorageState initial_json (Raw ''{"workMin":30}'')
        (Some (JObject [(''workMin'', JNumber 30)])) = JObject [(''workMin'', JNumber 30)]
   \<and> useLocalStorageState initial_json Null None = initial_json\<close>
proof -
  have n: \<open>''{"workMin":30}'' \<noteq> []\<close> by simp
  from load_gives_initial_or_the_parsed_value
         [of initial_json None \<open>''{"workMin":30}''\<close> \<open>JObject [(''workMin'', JNumber 30)]\<close>] n
  show ?thesis by blast
qed

text \<open>
  Claim C8 as stated fails on a record from which fields are missing: the stored
  object with the single property \<open>workMin\<close> is returned as it is. It has no
  \<open>breakMin\<close>, where the default is 5, and is not a complete preferences value.
\<close>

theorem load_fills_in_no_missing_field:
  \<open>useLocalStorageState initial_json (Raw ''{"workMin":30}'')
       (Some (JObject [(''workMin'', JNumber 30)])) = JObject [(''workMin'', JNumber 30)]
   \<and> property (useLocalStorageState initial_json (Raw ''{"workMin":30}'')
       (Some (JObject [(''workMin'', JNumber 30)]))) ''breakMin'' = None
   \<and> property initial_json ''breakMin'' = Some (JNumber 5)
   \<and> complete initial_json
   \<and> \<not> complete (useLocalStorageState initial_json (Raw ''{"workMin":30}'')
       (Some (JObject [(''workMin'', JNumber 30)])))\<close>
  by (simp add: useLocalStorageState_def complete_def asPrefs_def asInt_def asBool_def
        property_def initial_json_def)

section \<open>The sign of \<open>secondsLeft\<close>\<close>

lemma total_nonneg: "durationsNonneg p \<Longrightarrow> 0 \<le> phaseTotalSeconds p ph"
  by (simp add: durationsNonneg_def phaseTotalSeconds_def)

lemma effects_nonneg:
  "durationsNonneg (prefs new) \<Longrightarrow> 0 \<le> secondsLeft new \<Longrightarrow>
     0 \<le> secondsLeft (effects old new)"
  using secondsLeft_effects_cases [of old new] total_nonneg [of "prefs new" "phase new"]
  by auto

lemma tickUpdater_nonneg: "0 \<le> fst (tickUpdater s)"
  by (simp add: tickUpdater_def)

lemma tick_nonneg:
  assumes "durationsNonneg (prefs st)"
  shows "0 \<le> secondsLeft (tick st) \<or> (interval st = None \<and> tick st = st)"
proof (cases "interval st")
  case None
  then show ?thesis by (simp add: tick_def)
next
  case (Some c)
  show ?thesis
  proof (cases "secondsLeft st \<le> 1")
    case True
    have "0 \<le> secondsLeft (effects (st\<lparr>secondsLeft := 0\<rparr>)
                 (finishPhase c (st\<lparr>secondsLeft := 0\<rparr>)))"
      using assms by (intro effects_nonneg) (simp_all add: prefs_finish secondsLeft_finish)
    then show ?thesis using Some True by (simp add: tick_exhausts)
  next
    case False
    then show ?thesis using Some by (simp add: tick_decrement)
  qed
qed

lemma durationsNonneg_step:
  assumes d: "durationsNonneg (prefs st)"
  shows "durationsNonneg (prefs (step e st))"
proof (cases e)
  case (ApplyPreset ps)
  then show ?thesis
    using clampInt_range [of 1 180 "presetWorkMin ps"]
      clampInt_range [of 1 120 "presetBreakMin ps"]
      clampInt_range [of 1 180 "presetLongBreakMin ps"]
    by (simp add: durationsNonneg_def applyPreset_def Let_def)
next
  case (SetWorkMin n)
  then show ?thesis using d clampInt_range [of 1 180 n]
    by (simp add: durationsNonneg_def setWorkMin_def)
next
  case (SetBreakMin n)
  then show ?thesis using d clampInt_range [of 1 120 n]
    by (simp add: durationsNonneg_def setBreakMin_def)
next
  case (SetLongBreakMin n)
  then show ?thesis using d clampInt_range [of 1 180 n]
    by (simp add: durationsNonneg_def setLongBreakMin_def)
qed (use d in \<open>simp_all add: durationsNonneg_def toggleRunning_def resetPhase_def skip_def
       resetAll_def nextPhase_def setLongEvery_def toggleSound_def toggleAuto_def prefs_tick
       prefs_autoStart Let_def\<close>)

lemma shown_step:
  assumes s: "shown st"
  shows "shown (step e st)"
proof -
  from s have d: "durationsNonneg (prefs st)" and n: "0 \<le> secondsLeft st"
    by (simp_all add: shown_def)
  have d': "durationsNonneg (prefs (step e st))" using d by (rule durationsNonneg_step)
  have "0 \<le> secondsLeft (step e st)"
  proof (cases e)
    case Toggle
    then show ?thesis using d n
      by (simp add: toggleRunning_def effects_nonneg)
  next
    case ResetPhase
    then show ?thesis using d total_nonneg [of "prefs st" "phase st"]
      by (simp add: resetPhase_def effects_nonneg)
  next
    case Skip
    then show ?thesis using d n
      by (simp add: skip_def nextPhase_def Let_def effects_nonneg)
  next
    case ResetAll
    then show ?thesis using d
      by (simp add: effects_nonneg resetAll_def durationsNonneg_def)
  next
    case (ApplyPreset ps)
    have "0 \<le> secondsLeft (applyPreset ps st)"
      using clampInt_range [of 1 180 "presetWorkMin ps"]
        clampInt_range [of 1 120 "presetBreakMin ps"]
        clampInt_range [of 1 180 "presetLongBreakMin ps"]
      by (simp add: applyPreset_def Let_def)
    moreover have "durationsNonneg (prefs (applyPreset ps st))"
      using d' ApplyPreset by simp
    ultimately show ?thesis using ApplyPreset by (simp add: effects_nonneg)
  next
    case (SetWorkMin x)
    then show ?thesis using d' n by (simp add: effects_nonneg setWorkMin_def)
  next
    case (SetBreakMin x)
    then show ?thesis using d' n by (simp add: effects_nonneg setBreakMin_def)
  next
    case (SetLongBreakMin x)
    then show ?thesis using d' n by (simp add: effects_nonneg setLongBreakMin_def)
  next
    case (SetLongEvery x)
    then show ?thesis using d' n by (simp add: effects_nonneg setLongEvery_def)
  next
    case ToggleSound
    then show ?thesis using d' n by (simp add: effects_nonneg toggleSound_def)
  next
    case ToggleAuto
    then show ?thesis using d' n by (simp add: effects_nonneg toggleAuto_def)
  next
    case Tick
    then show ?thesis using tick_nonneg [OF d] n by auto
  next
    case AutoStart
    then show ?thesis using d n by (simp add: autoStart_def effects_nonneg)
  qed
  with d' show ?thesis by (simp add: shown_def)
qed

lemma shown_run: "shown st \<Longrightarrow> shown (run es st)"
  by (induction es arbitrary: st) (simp_all add: shown_step)

lemma shown_mount: "durationsNonneg p \<Longrightarrow> shown (mount p)"
  by (simp add: shown_def mount_def total_nonneg)

text \<open>
  Claim C9, as the code has it. When the page is mounted on preferences whose three
  durations are not negative, \<open>secondsLeft\<close> is not negative after any sequence of
  events; so it is for the default preferences. In every case the updater of the
  interval returns a value that is not negative (this is the state rendered between
  the last tick and \<open>finishPhase\<close>), and the two numbers \<open>mmss\<close> prints are not
  negative.
\<close>

theorem secondsLeft_never_negative:
  "(durationsNonneg p \<longrightarrow> 0 \<le> secondsLeft (run es (mount p)))
   \<and> 0 \<le> secondsLeft (run es (mount initial_prefs))
   \<and> 0 \<le> fst (tickUpdater s)
   \<and> 0 \<le> fst (mmss s) \<and> 0 \<le> snd (mmss s)"
proof -
  have a: "durationsNonneg p \<longrightarrow> 0 \<le> secondsLeft (run es (mount p))"
    using shown_run [OF shown_mount, of p es] by (simp add: shown_def)
  have "durationsNonneg initial_prefs"
    by (simp add: durationsNonneg_def initial_prefs_def)
  then have b: "0 \<le> secondsLeft (run es (mount initial_prefs))"
    using shown_run [OF shown_mount, of initial_prefs es] by (simp add: shown_def)
  have c: "0 \<le> fst (mmss s) \<and> 0 \<le> snd (mmss s)"
    by (simp add: mmss_def Let_def pos_imp_zdiv_nonneg_iff)
  from a b c show ?thesis by (simp add: tickUpdater_nonneg)
qed

theorem secondsLeft_never_negative_witness:
  "durationsNonneg (initial_prefs\<lparr>workMin := 0\<rparr>)
   \<and> 0 \<le> secondsLeft (run [Toggle, Tick, Toggle, Skip, ResetAll]
            (mount (initial_prefs\<lparr>workMin := 0\<rparr>)))"
proof -
  have d: "durationsNonneg (initial_prefs\<lparr>workMin := 0\<rparr>)"
    by (simp add: durationsNonneg_def initial_prefs_def)
  from secondsLeft_never_negative
         [of "initial_prefs\<lparr>workMin := 0\<rparr>" "[Toggle, Tick, Toggle, Skip, ResetAll]"] d
  show ?thesis by blast
qed

text \<open>
  Claim C9 as stated fails for a stored record with a negative duration. The record
  is loaded as it is and has the type of the preferences; the page mounts with
  \<open>secondsLeft = - 300\<close>, and Reset writes \<open>- 300\<close> again.
\<close>

theorem negative_duration_is_loaded_and_shown:
  \<open>asPrefs (useLocalStorageState initial_json
       (Raw ''{"workMin":-5,"breakMin":5,"longBreakMin":15,"longEvery":4,"autoStartNext":false,"soundOn":true}'')
       (Some tampered_record)) = Some tampered_prefs
   \<and> secondsLeft (mount tampered_prefs) = - 300
   \<and> secondsLeft (step ResetPhase (mount tampered_prefs)) = - 300\<close>
  by (simp add: useLocalStorageState_def asPrefs_def asInt_def asBool_def property_def
        tampered_record_def tampered_prefs_def mount_def phaseTotalSeconds_def
        resetPhase_def effect_defs)

section \<open>The two variants\<close>

lemmas handler_v3_defs =
  toggleRunning_v3_def resetPhase_v3_def skip_v3_def resetAll_v3_def applyPreset_v3_def
  setWorkMin_v3_def setBreakMin_v3_def setLongBreakMin_v3_def setLongEvery_v3_def
  toggleSound_v3_def toggleAuto_v3_def

lemmas effect_v3_defs = effects_v3_def syncSecondsLeft_v3_def syncInterval_v3_def

lemmas scheduling_defs = scheduling_def scheduling_prefs_def scheduling_closure_def

lemma clampInt_v3_eq: "clampInt_v3 n lo hi = clampInt n lo hi"
  by (simp add: clampInt_v3_def clampInt_def)

lemma total_v3_eq: "phaseTotalSeconds_v3 p ph = phaseTotalSeconds (scheduling_prefs p) ph"
  by (simp add: phaseTotalSeconds_v3_def phaseTotalSeconds_def scheduling_prefs_def)

lemma useLong_v3_eq: "useLong_v3 p n = useLong (scheduling_prefs p) n"
  by (simp add: useLong_v3_def useLong_def scheduling_prefs_def)

lemma tickUpdater_v3_eq: "tickUpdater_v3 s = tickUpdater s"
  by (simp add: tickUpdater_v3_def tickUpdater_def)

lemma nextPhase_v3_eq:
  "scheduling (nextPhase_v3 p n ph st) = nextPhase (scheduling_prefs p) n ph (scheduling st)"
  by (simp add: nextPhase_v3_def nextPhase_def useLong_v3_eq Let_def scheduling_def)

lemma finishPhase_v3_eq:
  "scheduling (finishPhase_v3 c st) = finishPhase (scheduling_closure c) (scheduling st)"
  by (simp add: finishPhase_v3_def finishPhase_def nextPhase_v3_def nextPhase_def useLong_v3_eq
        Let_def scheduling_defs)

lemma effects_v3_eq:
  "scheduling (effects_v3 old new) = effects (scheduling old) (scheduling new)"
  by (simp add: effect_v3_defs effect_defs total_v3_eq scheduling_def scheduling_closure_def)

lemma resetAll_v3_eq: "scheduling (resetAll_v3 st) = resetAll (scheduling st)"
  by (simp add: resetAll_v3_def resetAll_def scheduling_defs)

lemma resetPhase_v3_eq: "scheduling (resetPhase_v3 st) = resetPhase (scheduling st)"
  by (simp add: resetPhase_v3_def resetPhase_def total_v3_eq scheduling_def)

lemma skip_v3_eq: "scheduling (skip_v3 st) = skip (scheduling st)"
  by (simp add: skip_v3_def skip_def nextPhase_v3_def nextPhase_def useLong_v3_eq Let_def
        scheduling_defs)

lemma applyPreset_v3_eq: "scheduling (applyPreset_v3 ps st) = applyPreset ps (scheduling st)"
  by (simp add: applyPreset_v3_def applyPreset_def clampInt_v3_eq Let_def scheduling_defs)

lemma tick_v3_eq: "scheduling (tick_v3 st) = tick (scheduling st)"
proof (cases "interval_v3 st")
  case None
  then show ?thesis by (simp add: tick_v3_def tick_def scheduling_def)
next
  case (Some c)
  let ?st1 = "st\<lparr>secondsLeft_v3 := fst (tickUpdater (secondsLeft_v3 st))\<rparr>"
  have i: "interval (scheduling st) = Some (scheduling_closure c)"
    using Some by (simp add: scheduling_def)
  have s1: "scheduling ?st1 = (scheduling st)\<lparr>secondsLeft := fst (tickUpdater (secondsLeft (scheduling st)))\<rparr>"
    by (simp add: scheduling_def)
  have s: "secondsLeft (scheduling st) = secondsLeft_v3 st" by (simp add: scheduling_def)
  show ?thesis
    using Some
    by (simp add: tick_v3_def tick_def tickUpdater_v3_eq Let_def i s effects_v3_eq
          finishPhase_v3_eq s1 [unfolded s])
qed

lemma autoStart_v3_eq: "scheduling (autoStart_v3 st) = autoStart (scheduling st)"
proof -
  have "scheduling (st\<lparr>isRunning_v3 := True, autoStarts_v3 := autoStarts_v3 st - 1\<rparr>) =
        (scheduling st)\<lparr>isRunning := True, autoStarts := autoStarts (scheduling st) - 1\<rparr>"
    by (simp add: scheduling_def)
  moreover have "autoStarts (scheduling st) = autoStarts_v3 st" by (simp add: scheduling_def)
  ultimately show ?thesis
    by (simp add: autoStart_v3_def autoStart_def effects_v3_eq)
qed

lemma step_core_v3_eq: "scheduling (step_core_v3 e st) = step e (scheduling st)"
proof (cases e)
  case Toggle
  have "scheduling (toggleRunning_v3 st) = toggleRunning (scheduling st)"
    by (simp add: toggleRunning_v3_def toggleRunning_def scheduling_def)
  then show ?thesis using Toggle by (simp add: effects_v3_eq)
next
  case (SetWorkMin n)
  have "scheduling (setWorkMin_v3 n st) = setWorkMin n (scheduling st)"
    by (simp add: setWorkMin_v3_def setWorkMin_def clampInt_v3_eq scheduling_defs)
  then show ?thesis using SetWorkMin by (simp add: effects_v3_eq)
next
  case (SetBreakMin n)
  have "scheduling (setBreakMin_v3 n st) = setBreakMin n (scheduling st)"
    by (simp add: setBreakMin_v3_def setBreakMin_def clampInt_v3_eq scheduling_defs)
  then show ?thesis using SetBreakMin by (simp add: effects_v3_eq)
next
  case (SetLongBreakMin n)
  have "scheduling (setLongBreakMin_v3 n st) = setLongBreakMin n (scheduling st)"
    by (simp add: setLongBreakMin_v3_def setLongBreakMin_def clampInt_v3_eq scheduling_defs)
  then show ?thesis using SetLongBreakMin by (simp add: effects_v3_eq)
next
  case (SetLongEvery n)
  have "scheduling (setLongEvery_v3 n st) = setLongEvery n (scheduling st)"
    by (simp add: setLongEvery_v3_def setLongEvery_def clampInt_v3_eq scheduling_defs)
  then show ?thesis using SetLongEvery by (simp add: effects_v3_eq)
next
  case ToggleSound
  have "scheduling (toggleSound_v3 st) = toggleSound (scheduling st)"
    by (simp add: toggleSound_v3_def toggleSound_def scheduling_defs)
  then show ?thesis using ToggleSound by (simp add: effects_v3_eq)
next
  case ToggleAuto
  have "scheduling (toggleAuto_v3 st) = toggleAuto (scheduling st)"
    by (simp add: toggleAuto_v3_def toggleAuto_def scheduling_defs)
  then show ?thesis using ToggleAuto by (simp add: effects_v3_eq)
qed (simp_all add: effects_v3_eq resetPhase_v3_eq skip_v3_eq resetAll_v3_eq applyPreset_v3_eq
       tick_v3_eq autoStart_v3_eq)

lemma theming_keeps_scheduling:
  "scheduling (step_v3 (SetBgColor v) st) = scheduling st"
  "scheduling (step_v3 (SetAccentColor v) st) = scheduling st"
  "scheduling (step_v3 (SetNoise n) st) = scheduling st"
  "scheduling (step_v3 (SetGlow n) st) = scheduling st"
  "scheduling (step_v3 (SetPalette bg accent) st) = scheduling st"
  by (simp_all add: effect_v3_defs phaseTotalSeconds_v3_def setBgColor_def setAccentColor_def
        setNoise_def setGlow_def setPalette_def scheduling_defs)

lemma run_v3_eq: "scheduling (run_v3 es st) = run (scheduling_events es) (scheduling st)"
proof (induction es arbitrary: st)
  case Nil
  then show ?case by simp
next
  case (Cons e es)
  then show ?case
    by (cases e) (simp_all add: step_core_v3_eq theming_keeps_scheduling [unfolded step_v3.simps])
qed

text \<open>
  Claim C10. Seen through \<open>scheduling\<close>, which forgets the theming fields, every
  operation of the second variant does what the operation of the first does:
  \<open>clampInt\<close> and the updater of the interval are equal as functions, the catalogues
  are equal, and the tick, \<open>nextPhase\<close>, \<open>finishPhase\<close>, \<open>resetPhase\<close>, \<open>resetAll\<close>,
  \<open>skip\<close>, \<open>applyPreset\<close>, every scheduling event and every sequence of events commute
  with \<open>scheduling\<close>. Phase, \<open>secondsLeft\<close>, \<open>isRunning\<close> and \<open>workSessionsDone\<close> are
  fields of the state \<open>scheduling\<close> keeps, so they agree.
\<close>

theorem variants_agree:
  "clampInt_v3 n lo hi = clampInt n lo hi
   \<and> PRESETS_v3 = PRESETS
   \<and> tickUpdater_v3 s = tickUpdater s
   \<and> scheduling (tick_v3 st) = tick (scheduling st)
   \<and> scheduling (nextPhase_v3 p k ph st) = nextPhase (scheduling_prefs p) k ph (scheduling st)
   \<and> scheduling (finishPhase_v3 c st) = finishPhase (scheduling_closure c) (scheduling st)
   \<and> scheduling (resetPhase_v3 st) = resetPhase (scheduling st)
   \<and> scheduling (resetAll_v3 st) = resetAll (scheduling st)
   \<and> scheduling (skip_v3 st) = skip (scheduling st)
   \<and> scheduling (applyPreset_v3 ps st) = applyPreset ps (scheduling st)
   \<and> scheduling (step_v3 (Scheduling e) st) = step e (scheduling st)
   \<and> scheduling (run_v3 es st) = run (scheduling_events es) (scheduling st)
   \<and> phase (scheduling st) = phase_v3 st
   \<and> secondsLeft (scheduling st) = secondsLeft_v3 st
   \<and> isRunning (scheduling st) = isRunning_v3 st
   \<and> workSessionsDone (scheduling st) = workSessionsDone_v3 st"
  by (simp add: clampInt_v3_eq PRESETS_v3_def PRESETS_def tickUpdater_v3_eq tick_v3_eq
        nextPhase_v3_eq finishPhase_v3_eq resetPhase_v3_eq resetAll_v3_eq skip_v3_eq
        applyPreset_v3_eq step_core_v3_eq run_v3_eq)
     (simp add: scheduling_def)

section \<open>The countdown up to and past the completion\<close>








section \<open>Preferences within their ranges\<close>





end
